theory Spec2Isabelle
  imports Main
begin

section \<open>Characters and strings\<close>

text \<open>
  Python strings are modelled as \<^typ>\<open>string\<close>; the character predicates and case
  mappings below are those of Python's \<open>str\<close> on the ASCII range. A character outside
  that range is neither a letter, a digit nor white space here, and the case mappings
  leave it alone.
\<close>

definition code :: "char \<Rightarrow> nat" where
  "code c = of_char c"

definition is_upper_c :: "char \<Rightarrow> bool" where
  "is_upper_c c = (65 \<le> code c \<and> code c \<le> 90)"

definition is_lower_c :: "char \<Rightarrow> bool" where
  "is_lower_c c = (97 \<le> code c \<and> code c \<le> 122)"

definition is_cased :: "char \<Rightarrow> bool" where
  "is_cased c = (is_upper_c c \<or> is_lower_c c)"

definition is_digit :: "char \<Rightarrow> bool" where
  "is_digit c = (48 \<le> code c \<and> code c \<le> 57)"

definition is_word :: "char \<Rightarrow> bool" where
  "is_word c = (is_cased c \<or> is_digit c \<or> c = CHR ''_'')"

definition is_space :: "char \<Rightarrow> bool" where
  "is_space c = ((9 \<le> code c \<and> code c \<le> 13) \<or> (28 \<le> code c \<and> code c \<le> 32))"

definition lower_c :: "char \<Rightarrow> char" where
  "lower_c c = (if is_upper_c c then char_of (code c + 32) else c)"

definition upper_c :: "char \<Rightarrow> char" where
  "upper_c c = (if is_lower_c c then char_of (code c - 32) else c)"

definition lower :: "string \<Rightarrow> string" where
  "lower s = map lower_c s"

definition upper :: "string \<Rightarrow> string" where
  "upper s = map upper_c s"

text \<open>
  \<open>str.title\<close>: a cased character that follows a cased character is lowercased, any
  other character is titlecased (uppercased, on ASCII).
\<close>

fun title_from :: "bool \<Rightarrow> string \<Rightarrow> string" where
  "title_from previous_is_cased [] = []"
| "title_from previous_is_cased (c # cs) =
     (if previous_is_cased then lower_c c else upper_c c) # title_from (is_cased c) cs"

definition title :: "string \<Rightarrow> string" where
  "title s = title_from False s"

text \<open>\<open>str.strip\<close> with no argument.\<close>

definition strip :: "string \<Rightarrow> string" where
  "strip s = rev (dropWhile is_space (rev (dropWhile is_space s)))"

section \<open>Casing transform\<close>

text \<open>\<open>DocumentProcessor.apply_casing\<close>\<close>

definition apply_casing :: "string \<Rightarrow> string \<Rightarrow> string" where
  "apply_casing v casing =
     (if casing = ''upper'' then upper v
      else if casing = ''lower'' then lower v
      else if casing = ''title'' then title v
      else v)"

section \<open>Facts about the character classes\<close>

lemma code_char_of: "n < 256 \<Longrightarrow> code (char_of n) = n"
  by (simp add: code_def)

lemma is_upper_lower_c [simp]: "is_upper_c (lower_c c) = False"
  by (auto simp: lower_c_def is_upper_c_def code_def)

lemma is_lower_upper_c [simp]: "is_lower_c (upper_c c) = False"
  by (auto simp: upper_c_def is_lower_c_def code_def)

lemma lower_c_idem [simp]: "lower_c (lower_c c) = lower_c c"
  by (simp add: lower_c_def [of "lower_c c"])

lemma upper_c_idem [simp]: "upper_c (upper_c c) = upper_c c"
  by (simp add: upper_c_def [of "upper_c c"])

lemma is_cased_lower_c [simp]: "is_cased (lower_c c) = is_cased c"
  by (auto simp: lower_c_def is_cased_def is_upper_c_def is_lower_c_def code_def)

lemma is_cased_upper_c [simp]: "is_cased (upper_c c) = is_cased c"
  by (auto simp: upper_c_def is_cased_def is_upper_c_def is_lower_c_def code_def)


section \<open>Casing is idempotent\<close>


section \<open>Ordinal-casing normalisation of raw input\<close>

text \<open>
  \<open>str.isupper\<close>: there is a cased character and no cased character is lowercase.
\<close>

definition isupper :: "string \<Rightarrow> bool" where
  "isupper s = (list_ex is_upper_c s \<and> \<not> list_ex is_lower_c s)"

text \<open>
  The pattern \<open>(\d+)(Th|St|Nd|Rd)\b\<close> of \<open>fix_date_ordinal_casing\<close>. \<open>ordinal_suffix\<close> is
  the part after the digits: one of the four capitalised suffixes, followed by a word
  boundary (the end of the text or a character that is not a word character).
  \<open>match_ordinal\<close> is a match attempt at the head of the text: the greedy digit run,
  then the suffix. Giving digits back cannot help, since a suffix does not start with a
  digit.
\<close>

fun ordinal_suffix :: "string \<Rightarrow> (string \<times> string) option" where
  "ordinal_suffix (a # b # r) =
     (if ([a, b] = ''Th'' \<or> [a, b] = ''St'' \<or> [a, b] = ''Nd'' \<or> [a, b] = ''Rd'')
         \<and> (case r of [] \<Rightarrow> True | z # _ \<Rightarrow> \<not> is_word z)
      then Some ([a, b], r) else None)"
| "ordinal_suffix _ = None"

definition at_ordinal_suffix :: "string \<Rightarrow> bool" where
  "at_ordinal_suffix r = (case ordinal_suffix r of None \<Rightarrow> False | Some m \<Rightarrow> True)"

definition match_ordinal :: "string \<Rightarrow> (string \<times> string \<times> string) option" where
  "match_ordinal s =
     (let ds = takeWhile is_digit s in
      if ds = [] then None
      else case ordinal_suffix (dropWhile is_digit s) of
             None \<Rightarrow> None
           | Some (suf, rest) \<Rightarrow> Some (ds, suf, rest))"

lemma ordinal_suffix_SomeD:
  "ordinal_suffix r = Some (suf, rest) \<Longrightarrow> r = suf @ rest \<and> length suf = 2"
  by (cases r rule: ordinal_suffix.cases) (auto split: if_splits)

lemma match_ordinal_Some_suffix:
  "match_ordinal s = Some (ds, suf, rest) \<Longrightarrow>
     ds = takeWhile is_digit s \<and> ds \<noteq> []
       \<and> ordinal_suffix (dropWhile is_digit s) = Some (suf, rest)"
  unfolding match_ordinal_def Let_def
  by (simp split: if_splits option.splits)

lemma match_ordinal_SomeD:
  assumes "match_ordinal s = Some (ds, suf, rest)"
  shows "s = ds @ suf @ rest \<and> ds \<noteq> [] \<and> length suf = 2 \<and> ds = takeWhile is_digit s"
proof -
  from match_ordinal_Some_suffix [OF assms]
  have ds: "ds = takeWhile is_digit s" "ds \<noteq> []"
    and suf: "ordinal_suffix (dropWhile is_digit s) = Some (suf, rest)" by blast+
  from ordinal_suffix_SomeD [OF suf]
  have "dropWhile is_digit s = suf @ rest" "length suf = 2" by blast+
  moreover have "s = takeWhile is_digit s @ dropWhile is_digit s" by simp
  ultimately show ?thesis using ds by metis
qed

text \<open>
  \<open>re.sub\<close> with the replacement \<open>m.group(1) + m.group(2).lower()\<close>: the leftmost match
  is replaced and the scan goes on behind it; where nothing matches, the character is
  copied and the scan moves one character on.
\<close>

function ord_sub :: "string \<Rightarrow> string" where
  "ord_sub [] = []"
| "ord_sub (c # cs) =
     (case match_ordinal (c # cs) of
        Some (ds, suf, rest) \<Rightarrow> ds @ lower suf @ ord_sub rest
      | None \<Rightarrow> c # ord_sub cs)"
  by pat_completeness auto
termination
proof (relation "measure length")
  show "wf (measure length)" by simp
next
  fix c cs x2 ds y suf rest
  assume "match_ordinal (c # cs) = Some x2" "(ds, y) = x2" "(suf, rest) = y"
  then have "match_ordinal (c # cs) = Some (ds, suf, rest)" by simp
  from match_ordinal_SomeD [OF this]
  have "c # cs = ds @ suf @ rest" and "length suf = 2" by simp_all
  from arg_cong [OF this(1), of length] this(2)
  have "length rest < length (c # cs)" by simp
  then show "(rest, c # cs) \<in> measure length" by simp
next
  fix c cs assume "match_ordinal (c # cs) = None"
  show "(cs, c # cs) \<in> measure length" by simp
qed

text \<open>\<open>fix_date_ordinal_casing\<close>\<close>

definition fix_date_ordinal_casing :: "string \<Rightarrow> string" where
  "fix_date_ordinal_casing text = (if isupper text then text else ord_sub text)"


text \<open>
  The same normalisation, character by character: a character is lowercased when it
  directly follows a digit and starts a suffix match; every other character is kept.
\<close>

fun norm_from :: "bool \<Rightarrow> string \<Rightarrow> string" where
  "norm_from after_digit [] = []"
| "norm_from after_digit (c # cs) =
     (if after_digit \<and> at_ordinal_suffix (c # cs) then lower_c c else c)
       # norm_from (is_digit c) cs"

lemma ordinal_suffix_digit: "is_digit c \<Longrightarrow> ordinal_suffix (c # cs) = None"
  by (cases cs) (auto simp: is_digit_def code_def)

lemma ordinal_suffix_shape:
  "ordinal_suffix r = Some (suf, rest) \<Longrightarrow>
     \<exists>a b. suf = [a, b] \<and> r = a # b # rest \<and> is_upper_c a \<and> is_lower_c b
        \<and> \<not> is_digit a \<and> \<not> is_digit b"
  by (cases r rule: ordinal_suffix.cases)
     (auto split: if_splits simp: is_upper_c_def is_lower_c_def is_digit_def code_def)

lemma lower_c_lower [simp]: "is_lower_c b \<Longrightarrow> lower_c b = b"
  by (auto simp: lower_c_def is_lower_c_def is_upper_c_def)

lemma at_ordinal_suffix_digit [simp]: "is_digit c \<Longrightarrow> \<not> at_ordinal_suffix (c # cs)"
  by (simp add: at_ordinal_suffix_def ordinal_suffix_digit)

lemma at_ordinal_suffix_None: "ordinal_suffix s = None \<Longrightarrow> \<not> at_ordinal_suffix s"
  by (simp add: at_ordinal_suffix_def)

lemma at_ordinal_suffix_Some: "ordinal_suffix s = Some m \<Longrightarrow> at_ordinal_suffix s"
  by (simp add: at_ordinal_suffix_def)

lemma norm_from_no_suffix:
  "ordinal_suffix s = None \<Longrightarrow> norm_from b s = norm_from False s"
  by (cases s) (auto simp: at_ordinal_suffix_def)

lemma match_ordinal_nondigit: "\<not> is_digit c \<Longrightarrow> match_ordinal (c # cs) = None"
  by (simp add: match_ordinal_def)

lemma norm_from_digits:
  "list_all is_digit ds \<Longrightarrow> ds \<noteq> [] \<Longrightarrow> norm_from b (ds @ r) = ds @ norm_from True r"
proof (induction ds arbitrary: b)
  case Nil
  then show ?case by simp
next
  case (Cons d ds)
  then show ?case
    by (cases ds) auto
qed

lemma norm_from_suffix:
  assumes "ordinal_suffix r = Some (suf, rest)"
  shows "norm_from True r = lower suf @ norm_from False rest"
proof -
  from ordinal_suffix_shape [OF assms] obtain a b where
    ab: "suf = [a, b]" "r = a # b # rest" "is_lower_c b" "\<not> is_digit a" "\<not> is_digit b"
    by blast
  have "at_ordinal_suffix (a # b # rest)"
    using assms unfolding ab(2) by (rule at_ordinal_suffix_Some)
  then show ?thesis
    unfolding ab(1,2) using ab(3-) by (simp add: lower_def)
qed

lemma ord_sub_norm_from: "ord_sub s = norm_from False s"
proof (induction s rule: ord_sub.induct)
  case 1
  show ?case by simp
next
  case (2 c cs)
  show ?case
  proof (cases "match_ordinal (c # cs)")
    case None
    have "norm_from (is_digit c) cs = norm_from False cs"
    proof (cases "is_digit c")
      case False
      then show ?thesis by simp
    next
      case True
      have "ordinal_suffix cs = None"
      proof (cases cs)
        case Nil
        then show ?thesis by simp
      next
        case (Cons x xs)
        show ?thesis
        proof (cases "is_digit x")
          case True
          then show ?thesis using Cons by (simp add: ordinal_suffix_digit)
        next
          case False
          with None True Cons show ?thesis
            by (auto simp: match_ordinal_def split: option.splits)
        qed
      qed
      then show ?thesis by (rule norm_from_no_suffix)
    qed
    with None 2 show ?thesis by simp
  next
    case (Some t)
    obtain ds suf rest where t: "t = (ds, suf, rest)" by (cases t) auto
    from match_ordinal_SomeD [OF Some [unfolded t]]
    have s: "c # cs = ds @ suf @ rest" and ds: "ds \<noteq> []" "ds = takeWhile is_digit (c # cs)"
      by blast+
    have dig: "list_all is_digit ds"
      unfolding ds(2) by (simp add: list_all_iff) (meson set_takeWhileD)
    have suf: "ordinal_suffix (suf @ rest) = Some (suf, rest)"
    proof -
      from match_ordinal_Some_suffix [OF Some [unfolded t]]
      have *: "ordinal_suffix (dropWhile is_digit (c # cs)) = Some (suf, rest)" by blast
      from ordinal_suffix_SomeD [OF *] have "dropWhile is_digit (c # cs) = suf @ rest" by blast
      with * show ?thesis by simp
    qed
    have "norm_from False (c # cs) = ds @ lower suf @ norm_from False rest"
      unfolding s using norm_from_digits [OF dig ds(1)] norm_from_suffix [OF suf] by simp
    moreover have "ord_sub rest = norm_from False rest"
      using 2(2) [OF Some [unfolded t] refl refl] .
    ultimately show ?thesis using Some t by simp
  qed
qed


lemma code_lower_c: "code (lower_c c) = (if is_upper_c c then code c + 32 else code c)"
  by (simp add: lower_c_def is_upper_c_def code_char_of)

lemma is_digit_lower_c [simp]: "is_digit (lower_c c) = is_digit c"
  by (auto simp: is_digit_def code_lower_c is_upper_c_def)

lemma is_lower_c_lower_c [simp]: "is_lower_c (lower_c c) = is_cased c"
  by (auto simp: is_cased_def is_lower_c_def code_lower_c is_upper_c_def)

lemma lower_c_underscore [simp]: "(lower_c c = CHR ''_'') = (c = CHR ''_'')"
proof
  assume h: "lower_c c = CHR ''_''"
  have "code (lower_c c) = 95" unfolding h by (simp add: code_def)
  then have "\<not> is_upper_c c" by (auto simp: code_lower_c is_upper_c_def split: if_splits)
  with h show "c = CHR ''_''" by (simp add: lower_c_def)
next
  assume "c = CHR ''_''"
  then show "lower_c c = CHR ''_''" by (simp add: lower_c_def is_upper_c_def code_def)
qed

lemma is_word_lower_c [simp]: "is_word (lower_c c) = is_word c"
  by (simp add: is_word_def)

lemma length_norm_from [simp]: "length (norm_from b s) = length s"
  by (induction s arbitrary: b) simp_all

lemma at_ordinal_suffix_norm_from:
  "at_ordinal_suffix (c # norm_from (is_digit c) cs) = at_ordinal_suffix (c # cs)"
proof (cases "is_digit c")
  case True
  then show ?thesis by simp
next
  case False
  show ?thesis
  proof (cases cs)
    case Nil
    then show ?thesis by simp
  next
    case (Cons b r)
    with False show ?thesis
      by (cases r) (auto simp: at_ordinal_suffix_def split: if_splits)
  qed
qed

lemma at_ordinal_suffix_lowered: "\<not> at_ordinal_suffix (lower_c c # cs)"
proof (cases cs)
  case Nil
  then show ?thesis by (simp add: at_ordinal_suffix_def)
next
  case (Cons b r)
  have "\<not> is_upper_c (lower_c c)" by simp
  then have "lower_c c \<noteq> CHR ''T''" "lower_c c \<noteq> CHR ''S''" "lower_c c \<noteq> CHR ''N''"
    "lower_c c \<noteq> CHR ''R''"
    by (auto simp: is_upper_c_def code_def)
  with Cons show ?thesis by (simp add: at_ordinal_suffix_def)
qed

lemma norm_from_idem: "norm_from b (norm_from b s) = norm_from b s"
proof (induction s arbitrary: b)
  case Nil
  show ?case by simp
next
  case (Cons c cs)
  show ?case
    using Cons.IH [of "is_digit c"]
    by (simp add: at_ordinal_suffix_norm_from at_ordinal_suffix_lowered)
qed

lemma norm_from_keeps_lower: "list_ex is_lower_c s \<Longrightarrow> list_ex is_lower_c (norm_from b s)"
  by (induction s arbitrary: b) (auto simp: is_cased_def)

lemma norm_from_no_new_upper:
  "\<not> list_ex is_upper_c s \<Longrightarrow> \<not> list_ex is_upper_c (norm_from b s)"
  by (induction s arbitrary: b) auto

lemma isupper_norm_from: "\<not> isupper s \<Longrightarrow> \<not> isupper (norm_from b s)"
  unfolding isupper_def using norm_from_keeps_lower norm_from_no_new_upper by blast


text \<open>
  C10: \<open>fix_date_ordinal_casing\<close> is idempotent. A fully uppercase text is returned as it
  is; otherwise the substitution leaves only lowercase suffixes behind digits, which the
  case-sensitive pattern no longer matches, and the result is still not fully uppercase.
\<close>

theorem fix_date_ordinal_casing_idempotent:
  "fix_date_ordinal_casing (fix_date_ordinal_casing s) = fix_date_ordinal_casing s"
proof (cases "isupper s")
  case True
  then show ?thesis by (simp add: fix_date_ordinal_casing_def)
next
  case False
  then have "\<not> isupper (ord_sub s)"
    by (simp add: ord_sub_norm_from isupper_norm_from)
  with False show ?thesis
    by (simp add: fix_date_ordinal_casing_def ord_sub_norm_from norm_from_idem)
qed




section \<open>Date transform\<close>

text \<open>\<open>str\<close> of a non-negative integer: its decimal digits.\<close>

fun str_nat :: "nat \<Rightarrow> string" where
  "str_nat n =
     (if n < 10 then [char_of (48 + n)]
      else str_nat (n div 10) @ [char_of (48 + n mod 10)])"

declare str_nat.simps [simp del]

text \<open>\<open>DocumentProcessor.ordinal\<close>\<close>

definition ordinal :: "nat \<Rightarrow> string" where
  "ordinal n =
     (let suffix =
        (if 11 \<le> n mod 100 \<and> n mod 100 \<le> 13 then ''th''
         else [''th'', ''st'', ''nd'', ''rd'', ''th''] ! min (n mod 10) 4)
      in str_nat n @ suffix)"

text \<open>
  A \<open>datetime\<close>, as far as \<open>format_date\<close> reads it: the calendar date and whether it carries
  a time zone (the offset from UTC in minutes). The clock, \<open>dateutil\<close>'s parser and
  \<open>pytz\<close>'s conversion are outside the repository and enter as an environment:
  \<open>now_waz\<close> is \<open>datetime.now\<close> in the zone \<open>Africa/Lagos\<close>, \<open>parse\<close> returns \<open>None\<close> where the
  parser raises \<open>ValueError\<close>, \<open>astimezone_waz\<close> converts an aware datetime to that zone.
  Localising a naive datetime keeps its date.
\<close>

record datetime =
  dt_year :: nat
  dt_month :: nat
  dt_day :: nat
  tzinfo :: "int option"

record date_env =
  now_waz :: datetime
  parse :: "string \<Rightarrow> datetime option"
  astimezone_waz :: "datetime \<Rightarrow> datetime"

text \<open>\<open>strftime("%B")\<close>, for a month from 1 to 12.\<close>

definition month_name :: "nat \<Rightarrow> string" where
  "month_name m =
     [''January'', ''February'', ''March'', ''April'', ''May'', ''June'', ''July'',
      ''August'', ''September'', ''October'', ''November'', ''December''] ! (m - 1)"

text \<open>The rendering at the end of \<open>format_date\<close>, by template type.\<close>

definition render_date :: "datetime \<Rightarrow> string \<Rightarrow> string" where
  "render_date date_obj template_type =
     (let day = ordinal (dt_day date_obj);
          month = month_name (dt_month date_obj);
          year = str_nat (dt_year date_obj)
      in if lower template_type = ''letter'' then day @ '' '' @ month @ '', '' @ year
         else if lower template_type = ''affidavit'' then day @ '' of '' @ month @ '', '' @ year
         else day @ '' '' @ month @ '', '' @ year)"

text \<open>\<open>DocumentProcessor.format_date\<close>\<close>

definition format_date :: "date_env \<Rightarrow> string \<Rightarrow> string \<Rightarrow> string" where
  "format_date env date_string template_type =
     (if date_string = [] \<or> strip date_string = [] then
        render_date (now_waz env) template_type
      else case parse env date_string of
             None \<Rightarrow> date_string
           | Some d \<Rightarrow>
               render_date
                 (if tzinfo d = None then d\<lparr>tzinfo := Some 60\<rparr> else astimezone_waz env d)
                 template_type)"

text \<open>An environment whose parser knows one date.\<close>

definition env0 :: date_env where
  "env0 = \<lparr>now_waz = \<lparr>dt_year = 2026, dt_month = 11, dt_day = 3, tzinfo = Some 60\<rparr>,
           parse = (\<lambda>s. if s = ''2025-09-22''
                         then Some \<lparr>dt_year = 2025, dt_month = 9, dt_day = 22, tzinfo = None\<rparr>
                         else None),
           astimezone_waz = (\<lambda>d. d)\<rparr>"


lemma strip_Nil [simp]: "strip [] = []"
  by (simp add: strip_def)





section \<open>Address transform\<close>

text \<open>\<open>str.split(',')\<close>: the pieces between commas, at least one.\<close>

fun split_comma :: "string \<Rightarrow> string list" where
  "split_comma [] = [Nil]"
| "split_comma (c # cs) =
     (if c = CHR '','' then [] # split_comma cs
      else case split_comma cs of
             [] \<Rightarrow> [c # Nil]
           | w # ws \<Rightarrow> (c # w) # ws)"

text \<open>\<open>str.join\<close> with a line break as separator.\<close>

fun join_lines :: "string list \<Rightarrow> string" where
  "join_lines [] = []"
| "join_lines [l] = l"
| "join_lines (l # ls) = l @ [CHR 0x0A] @ join_lines ls"

text \<open>\<open>str.endswith('.')\<close>\<close>

definition endswith_period :: "string \<Rightarrow> bool" where
  "endswith_period a = (case rev a of [] \<Rightarrow> False | c # _ \<Rightarrow> c = CHR ''.'')"

lemma length_strip_le: "length (strip s) \<le> length s"
proof -
  have "length (strip s) \<le> length (dropWhile is_space s)"
    unfolding strip_def by (simp add: length_dropWhile_le) (metis length_dropWhile_le length_rev)
  also have "\<dots> \<le> length s" by (rule length_dropWhile_le)
  finally show ?thesis .
qed

text \<open>
  The affidavit loop: while the address ends with a period, drop it and strip the rest.
\<close>

function strip_trailing_periods :: "string \<Rightarrow> string" where
  "strip_trailing_periods address =
     (if endswith_period address then strip_trailing_periods (strip (butlast address))
      else address)"
  by pat_completeness auto
termination
proof (relation "measure length")
  show "wf (measure length)" by simp
next
  fix address :: string
  assume "endswith_period address"
  then have "address \<noteq> []" by (auto simp: endswith_period_def)
  then have "length (butlast address) < length address" by simp
  with length_strip_le [of "butlast address"]
  show "(strip (butlast address), address) \<in> measure length" by simp
qed

declare strip_trailing_periods.simps [simp del]

text \<open>
  The letter lines: a comma appended to every line but the last, a period to the last
  line unless it ends with one. The source calls this on a non-empty list only.
\<close>

definition letter_lines :: "string list \<Rightarrow> string list" where
  "letter_lines lines =
     map (\<lambda>l. l @ '','') (butlast lines)
       @ [if endswith_period (last lines) then last lines else last lines @ ''.'']"

text \<open>\<open>DocumentProcessor.format_address\<close>\<close>

definition format_address :: "string \<Rightarrow> string \<Rightarrow> string" where
  "format_address address_string template_type =
     (if address_string = [] \<or> strip address_string = [] then address_string
      else
        let address = strip address_string in
        if lower template_type = ''letter'' then
          (let lines = filter (\<lambda>l. l \<noteq> []) (map strip (split_comma address)) in
           if lines \<noteq> [] then join_lines (letter_lines lines) else address)
        else if lower template_type = ''affidavit'' then strip_trailing_periods address
        else address)"




lemma rev_dropWhile_takeWhile: "rev (dropWhile P (rev d)) @ rev (takeWhile P (rev d)) = d"
proof -
  have "rev (takeWhile P (rev d) @ dropWhile P (rev d)) = rev (rev d)"
    by (simp only: takeWhile_dropWhile_id)
  then show ?thesis by (simp only: rev_append rev_rev_ident)
qed

lemma dropWhile_strip:
  "dropWhile is_space s = strip s @ rev (takeWhile is_space (rev (dropWhile is_space s)))"
  unfolding strip_def by (rule rev_dropWhile_takeWhile [symmetric])



lemma strip_ends:
  assumes "strip s \<noteq> []"
  shows "\<not> is_space (hd (strip s))" and "\<not> is_space (last (strip s))"
proof -
  let ?d = "dropWhile is_space s"
  have d: "?d \<noteq> []"
  proof
    assume e: "?d = []"
    have "strip s = []" unfolding strip_def e by simp
    with assms show False ..
  qed
  have r: "rev (strip s) = dropWhile is_space (rev ?d)" by (simp add: strip_def)
  with assms have "\<not> is_space (hd (rev (strip s)))"
    by (metis hd_dropWhile rev_is_Nil_conv)
  with assms show "\<not> is_space (last (strip s))" by (simp add: hd_rev)
  from dropWhile_strip [of s] assms have "hd ?d = hd (strip s)" by (metis hd_append2)
  with hd_dropWhile [OF d] show "\<not> is_space (hd (strip s))" by simp
qed

lemma strip_fixed: "s = [] \<or> (\<not> is_space (hd s) \<and> \<not> is_space (last s)) \<Longrightarrow> strip s = s"
proof (cases "s = []")
  case True
  then show ?thesis by simp
next
  case False
  assume "s = [] \<or> (\<not> is_space (hd s) \<and> \<not> is_space (last s))"
  with False have h: "\<not> is_space (hd s)" and l: "\<not> is_space (last s)" by auto
  from h have 1: "dropWhile is_space s = s" by (simp add: dropWhile_eq_self_iff)
  from l False have "dropWhile is_space (rev s) = rev s"
    by (simp add: dropWhile_eq_self_iff hd_rev)
  with 1 show ?thesis by (simp add: strip_def)
qed

lemma strip_strip [simp]: "strip (strip s) = strip s"
  using strip_ends [of s] by (intro strip_fixed) blast





















section \<open>Placeholders and input validation\<close>

text \<open>
  The \<open>Placeholder\<close> rows of a template, with the columns the document pipeline reads
  (\<open>help_text\<close> and \<open>options\<close> only feed the form). Nullable columns are options.
\<close>

record placeholder =
  ph_name :: string
  ph_display_name :: "string option"
  ph_placeholder_type :: string
  ph_is_required :: bool
  ph_sort_order :: int
  ph_bold :: bool
  ph_italic :: bool
  ph_underline :: bool
  ph_casing :: string
  ph_font_family :: "string option"
  ph_font_size :: "int option"
  ph_alignment :: "string option"
  ph_paragraph_index :: nat
  ph_run_index :: nat
  ph_validation_pattern :: "string option"
  ph_default_value :: "string option"

text \<open>\<open>sub in s\<close>, and \<open>s.split(sep)[0]\<close>: the part of \<open>s\<close> before the first \<open>sep\<close>.\<close>

fun contains :: "string \<Rightarrow> string \<Rightarrow> bool" where
  "contains sub [] = (sub = [])"
| "contains sub (c # cs) = (take (length sub) (c # cs) = sub \<or> contains sub cs)"

fun before_first :: "string \<Rightarrow> string \<Rightarrow> string" where
  "before_first sep [] = []"
| "before_first sep (c # cs) =
     (if take (length sep) (c # cs) = sep then [] else c # before_first sep cs)"

text \<open>The base name of a placeholder name, as \<open>validate_inputs\<close> computes it.\<close>

definition base_name_of :: "string \<Rightarrow> string" where
  "base_name_of n =
     (if contains ''_instance_'' n then before_first ''_instance_'' n else n)"

text \<open>
  \<open>grouped[base_name].append(ph)\<close> on an insertion-ordered dictionary of lists, and the
  grouping loop.
\<close>

fun add_group ::
  "string \<Rightarrow> placeholder \<Rightarrow> (string \<times> placeholder list) list
     \<Rightarrow> (string \<times> placeholder list) list" where
  "add_group b ph [] = [(b, [ph])]"
| "add_group b ph ((k, phs) # g) =
     (if k = b then (k, phs @ [ph]) # g else (k, phs) # add_group b ph g)"

definition group_placeholders :: "placeholder list \<Rightarrow> (string \<times> placeholder list) list" where
  "group_placeholders placeholders =
     foldl (\<lambda>grouped ph. add_group (base_name_of (ph_name ph)) ph grouped) [] placeholders"

text \<open>
  \<open>min(phs, key=lambda p: p.sort_order)\<close> on a non-empty list \<open>best # ps\<close>: the first
  member with the least sort order.
\<close>

fun min_sort_order :: "placeholder \<Rightarrow> placeholder list \<Rightarrow> placeholder" where
  "min_sort_order best [] = best"
| "min_sort_order best (p # ps) =
     min_sort_order (if ph_sort_order p < ph_sort_order best then p else best) ps"

text \<open>\<open>ph.display_name or base_name\<close>\<close>

definition label :: "placeholder \<Rightarrow> string \<Rightarrow> string" where
  "label ph base_name =
     (case ph_display_name ph of
        None \<Rightarrow> base_name
      | Some d \<Rightarrow> if d = [] then base_name else d)"

text \<open>\<open>user_inputs.get(base_name, '')\<close>\<close>

definition input_value :: "(string \<rightharpoonup> string) \<Rightarrow> string \<Rightarrow> string" where
  "input_value user_inputs k = (case user_inputs k of None \<Rightarrow> [] | Some v \<Rightarrow> v)"

text \<open>
  A member's pattern check: it has a non-empty pattern and \<open>re.match\<close> finds no match.
  The regular-expression engine is outside the repository and enters as \<open>re_match\<close>.
\<close>

definition pattern_fails :: "(string \<Rightarrow> string \<Rightarrow> bool) \<Rightarrow> placeholder \<Rightarrow> string \<Rightarrow> bool" where
  "pattern_fails re_match ph v =
     (case ph_validation_pattern ph of
        None \<Rightarrow> False
      | Some pat \<Rightarrow> if pat = [] then False else if re_match pat v then False else True)"

text \<open>The body of the loop over the groups, and \<open>DocumentProcessor.validate_inputs\<close>.\<close>

definition group_errors ::
  "(string \<Rightarrow> string \<Rightarrow> bool) \<Rightarrow> (string \<rightharpoonup> string) \<Rightarrow> string \<times> placeholder list
     \<Rightarrow> string list" where
  "group_errors re_match user_inputs grp =
     (case grp of (base_name, phs) \<Rightarrow>
        let v = input_value user_inputs base_name in
        (if list_ex ph_is_required phs \<and> strip v = [] then
           (case phs of
              [] \<Rightarrow> []
            | p # ps \<Rightarrow> [label (min_sort_order p ps) base_name @ '' is required''])
         else [])
        @ (if strip v = [] then []
           else concat (map (\<lambda>ph. if pattern_fails re_match ph v
                                   then [label ph base_name @ '' is invalid''] else []) phs)))"

definition validate_inputs ::
  "(string \<Rightarrow> string \<Rightarrow> bool) \<Rightarrow> placeholder list \<Rightarrow> (string \<rightharpoonup> string) \<Rightarrow> string list" where
  "validate_inputs re_match placeholders user_inputs =
     concat (map (group_errors re_match user_inputs) (group_placeholders placeholders))"

text \<open>
  The distinct elements of a list in the order of their first occurrence, and the
  placeholders of a catalog with a given base name.
\<close>

definition first_seen :: "'a list \<Rightarrow> 'a list" where
  "first_seen xs = rev (remdups (rev xs))"



lemma distinct_first_seen [simp]: "distinct (first_seen xs)"
  by (simp add: first_seen_def)

lemma set_first_seen [simp]: "set (first_seen xs) = set xs"
  by (simp add: first_seen_def)













definition exact_match :: "string \<Rightarrow> string \<Rightarrow> bool" where
  "exact_match pat v = (pat = v)"





section \<open>Placeholder extraction\<close>




record formatting =
  f_bold :: bool
  f_italic :: bool
  f_underline :: bool
  f_font :: "string option"
  f_size :: "int option"

record occurrence =
  o_name :: string
  o_paragraph_index :: nat
  o_run_index :: nat
  o_formatting :: formatting
  o_alignment :: "string option"






























section \<open>Template ingestion and the rendering context\<close>

text \<open>\<open>DocumentProcessor.detect_variable_type\<close>\<close>

definition detect_variable_type :: "string \<Rightarrow> string" where
  "detect_variable_type var_name =
     (let name_lower = lower var_name in
      if contains ''date'' name_lower then ''date''
      else if contains ''email'' name_lower then ''email''
      else if contains ''number'' name_lower \<or> contains ''amount'' name_lower
              \<or> contains ''reg_no'' name_lower then ''number''
      else if contains ''url'' name_lower then ''url''
      else if list_ex (\<lambda>x. contains x name_lower)
                [''gender'', ''relation'', ''he_she'', ''his_her'', ''he_she'',
                 ''relationship'', ''religion'', ''level''] then ''option''
      else ''text'')"

text \<open>\<open>str.replace\<close> of one character by another.\<close>

definition replace_char :: "char \<Rightarrow> char \<Rightarrow> string \<Rightarrow> string" where
  "replace_char a b s = map (\<lambda>c. if c = a then b else c) s"

text \<open>
  \<open>DocumentProcessor.get_smart_placeholder_default\<close>: the chain of substring tests on the
  lowercased name as an ordered table, the first rule with a matching key giving the
  result, and the humanised default for a name no rule matches.
\<close>

definition smart_default_rules :: "(string list \<times> string) list" where
  "smart_default_rules =
     [([''name'', ''full_name'', ''student_name'', ''applicant_name'', ''name_1''], ''Joe Doe''),
      ([''address'', ''sender_address'', ''my_address'', ''location'', ''residence''],
       ''24 Avenue Avenue, Osato Junction, Benin City, Edo State''),
      ([''street''], ''24 Avenue Avenue''),
      ([''city'', ''town''], ''Benin City''),
      ([''state''], ''Edo State''),
      ([''department'', ''dept''], ''Production Engineering''),
      ([''faculty''], ''Engineering''),
      ([''college'', ''institution'', ''university'', ''school''], ''University of Benin''),
      ([''mat_no'', ''matric_no'', ''reg_no'', ''id'', ''student_id'', ''registration_number''],
       ''ENG2204223''),
      ([''gender''], ''Male''),
      ([''his_her'', ''his_she''], ''his''),
      ([''him_her'', ''him_she''], ''him''),
      ([''he_she'', ''heshe''], ''he''),
      ([''date'', ''time''], [])]"

fun first_rule :: "(string list \<times> string) list \<Rightarrow> string \<Rightarrow> string option" where
  "first_rule [] name_lower = None"
| "first_rule ((keys, result) # rules) name_lower =
     (if list_ex (\<lambda>x. contains x name_lower) keys then Some result
      else first_rule rules name_lower)"

definition get_smart_placeholder_default :: "string \<Rightarrow> string" where
  "get_smart_placeholder_default var_name =
     (case first_rule smart_default_rules (lower var_name) of
        Some result \<Rightarrow> result
      | None \<Rightarrow> ''Enter '' @ title (replace_char CHR ''_'' CHR '' '' var_name))"

text \<open>
  The loop of \<open>admin_upload_template\<close> that creates one placeholder row per extracted
  occurrence: \<open>instance_counters\<close> counts the occurrences of each name so far and \<open>i\<close> is
  the running sort order. Columns not set by the loop take their defaults.
\<close>

fun build_placeholders ::
  "(string \<Rightarrow> nat) \<Rightarrow> nat \<Rightarrow> occurrence list \<Rightarrow> placeholder list" where
  "build_placeholders instance_counters i [] = []"
| "build_placeholders instance_counters i (inst # insts) =
     (let var_name = o_name inst;
          n = instance_counters var_name + 1;
          instance_name = (if n = 1 then var_name else var_name @ ''_instance_'' @ str_nat n);
          display_name = title (replace_char CHR ''_'' CHR '' '' var_name)
                           @ (if 1 < n then '' (Instance '' @ str_nat n @ '')'' else [])
      in \<lparr>ph_name = instance_name,
           ph_display_name = Some display_name,
           ph_placeholder_type = detect_variable_type var_name,
           ph_is_required = True,
           ph_sort_order = int i,
           ph_bold = f_bold (o_formatting inst),
           ph_italic = f_italic (o_formatting inst),
           ph_underline = f_underline (o_formatting inst),
           ph_casing = ''none'',
           ph_font_family = f_font (o_formatting inst),
           ph_font_size = f_size (o_formatting inst),
           ph_alignment = o_alignment inst,
           ph_paragraph_index = o_paragraph_index inst,
           ph_run_index = o_run_index inst,
           ph_validation_pattern = None,
           ph_default_value = Some (get_smart_placeholder_default var_name)\<rparr>
         # build_placeholders (instance_counters(var_name := n)) (i + 1) insts)"

definition upload_placeholders :: "occurrence list \<Rightarrow> placeholder list" where
  "upload_placeholders placeholder_instances = build_placeholders (\<lambda>v. 0) 0 placeholder_instances"

text \<open>
  A template row with the columns the generation reads. Its margins are read only by the
  adjustment after rendering, which is external here.
\<close>

record template =
  t_name :: string
  t_type :: string
  t_file_path :: string
  t_placeholders :: "placeholder list"

text \<open>A value of the rendering context: plain text, or a \<open>RichText\<close> with its overrides.\<close>

datatype context_value =
  Plain string
| RichText string "bool option" "bool option" "bool option" "string option" "int option"

text \<open>\<open>x if x else None\<close> for a flag.\<close>

definition truthy :: "bool \<Rightarrow> bool option" where
  "truthy b = (if b then Some True else None)"

text \<open>
  The value \<open>prepare_context\<close> computes for one placeholder: the lookup under the
  placeholder's own name with its default, the retry under the base name, the date or
  address transform and the casing.
\<close>

definition context_value_of ::
  "date_env \<Rightarrow> template \<Rightarrow> (string \<rightharpoonup> string) \<Rightarrow> placeholder \<Rightarrow> string" where
  "context_value_of env tmpl user_inputs ph =
     (let default = (case ph_default_value ph of None \<Rightarrow> [] | Some d \<Rightarrow> d);
          v0 = (case user_inputs (ph_name ph) of None \<Rightarrow> default | Some v \<Rightarrow> v);
          v1 = (if v0 = [] \<and> contains ''_instance_'' (ph_name ph) then
                  (case user_inputs (before_first ''_instance_'' (ph_name ph)) of
                     None \<Rightarrow> default | Some v \<Rightarrow> v)
                else v0);
          v2 = (if ph_placeholder_type ph = ''date'' then format_date env v1 (t_type tmpl)
                else if contains ''address'' (lower (ph_name ph))
                then format_address v1 (t_type tmpl)
                else v1)
      in apply_casing v2 (ph_casing ph))"

text \<open>\<open>DocumentProcessor.prepare_context\<close>\<close>

definition prepare_context ::
  "date_env \<Rightarrow> template \<Rightarrow> (string \<rightharpoonup> string) \<Rightarrow> bool \<Rightarrow> (string \<rightharpoonup> context_value)" where
  "prepare_context env tmpl user_inputs preserve_original_formatting =
     foldl (\<lambda>context ph.
              let v = context_value_of env tmpl user_inputs ph in
              context(ph_name ph \<mapsto>
                (if preserve_original_formatting then Plain v
                 else RichText v (truthy (ph_bold ph)) (truthy (ph_italic ph))
                        (truthy (ph_underline ph))
                        (case ph_font_family ph of None \<Rightarrow> None
                         | Some f \<Rightarrow> if f = [] then None else Some f)
                        (case ph_font_size ph of None \<Rightarrow> None
                         | Some n \<Rightarrow> if n = 0 then None else Some (n * 2)))))
           Map.empty (t_placeholders tmpl)"

text \<open>
  The occurrences extracted from a letter template in which \<open>name\<close> occurs twice, and the
  template as ingestion stores it.
\<close>

definition name_twice :: "occurrence list" where
  "name_twice =
     [\<lparr>o_name = ''name'', o_paragraph_index = 0, o_run_index = 0,
       o_formatting = \<lparr>f_bold = False, f_italic = False, f_underline = False,
                       f_font = None, f_size = None\<rparr>, o_alignment = None\<rparr>,
      \<lparr>o_name = ''name'', o_paragraph_index = 3, o_run_index = 1,
       o_formatting = \<lparr>f_bold = True, f_italic = False, f_underline = False,
                       f_font = None, f_size = None\<rparr>, o_alignment = None\<rparr>]"

definition letter_template :: template where
  "letter_template = \<lparr>t_name = ''Letter'', t_type = ''letter'', t_file_path = ''letter.docx'',
                      t_placeholders = upload_placeholders name_twice\<rparr>"



text \<open>
  C3: ingestion names the second occurrence of \<open>name\<close> \<open>name_instance_2\<close> and gives both rows
  the default \<open>Joe Doe\<close>. With the input \<open>name = Alice\<close>, the context holds \<open>Alice\<close> under
  \<open>name\<close> but \<open>Joe Doe\<close> under \<open>name_instance_2\<close>: the lookup under the instance's own name
  returns the non-empty default, so the retry under the base name is not made.
\<close>

theorem prepare_context_instance_gets_default:
  "map ph_name (upload_placeholders name_twice) = [''name'', ''name_instance_2''] \<and>
   map ph_default_value (upload_placeholders name_twice) = [Some ''Joe Doe'', Some ''Joe Doe''] \<and>
   prepare_context env letter_template [''name'' \<mapsto> ''Alice''] True ''name''
     = Some (Plain ''Alice'') \<and>
   prepare_context env letter_template [''name'' \<mapsto> ''Alice''] True ''name_instance_2''
     = Some (Plain ''Joe Doe'')"
  by code_simp

section \<open>Document generation and batches\<close>

text \<open>
  The exceptions of a generation request: \<open>get_or_404\<close> finding no template, the
  \<open>ValueError\<close> raised on invalid inputs, and a failure of the substitution mechanism.
  \<open>str_error\<close> is \<open>str(e)\<close>.
\<close>

datatype error = NotFound | ValueError string | RenderError string

fun str_error :: "error \<Rightarrow> string" where
  "str_error NotFound =
     ''404 Not Found: The requested URL was not found on the server. If you entered the URL manually please check your spelling and try again.''"
| "str_error (ValueError msg) = msg"
| "str_error (RenderError msg) = msg"

text \<open>
  The rows of \<open>CreatedDocument\<close> and \<open>BatchGeneration\<close>, the record store with the folder of
  generated files, and what lies outside the repository: the substitution mechanism
  (rendering a template file with a context gives the document's bytes or fails with a
  message), the margin adjustment (which may fail), the stream of fresh identifiers, the
  clock, the regular-expression engine and the date environment.
\<close>

record created_document =
  cd_template_id :: nat
  cd_user_name :: string
  cd_user_email :: "string option"
  cd_file_path :: string
  cd_original_filename :: string
  cd_file_size :: nat
  cd_batch_id :: "string option"
  cd_user_inputs :: "string \<rightharpoonup> string"

record batch_generation =
  bg_batch_id :: string
  bg_user_name :: string
  bg_user_email :: "string option"
  bg_template_ids :: "nat list"
  bg_user_inputs :: "string \<rightharpoonup> string"
  bg_status :: string
  bg_completed_at :: "string option"
  bg_total_documents :: nat
  bg_successful_documents :: nat
  bg_error_message :: "string option"

record store =
  templates :: "nat \<rightharpoonup> template"
  documents :: "created_document list"
  batches :: "batch_generation list"
  generated_files :: "(string \<times> string) list"
  uuids_drawn :: nat

record externals =
  x_render :: "string \<Rightarrow> (string \<rightharpoonup> context_value) \<Rightarrow> string + string"
  x_post_process :: "template \<Rightarrow> string \<Rightarrow> string option"
  x_uuid :: "nat \<Rightarrow> string"
  x_now :: string
  x_utcnow :: string
  x_re_match :: "string \<Rightarrow> string \<Rightarrow> bool"
  x_dates :: date_env

text \<open>Writing a file, and the download name of a generated document.\<close>

definition write_file :: "string \<Rightarrow> string \<Rightarrow> (string \<times> string) list \<Rightarrow> (string \<times> string) list" where
  "write_file path content files = (path, content) # filter (\<lambda>f. fst f \<noteq> path) files"

definition original_filename_of :: "externals \<Rightarrow> template \<Rightarrow> (string \<rightharpoonup> string) \<Rightarrow> string" where
  "original_filename_of ext tmpl user_inputs =
     (let original_filename = t_name tmpl @ ''_'' @ x_now ext @ ''.docx'' in
      case user_inputs ''name'' of
        None \<Rightarrow> original_filename
      | Some n \<Rightarrow>
          if strip n = [] then original_filename
          else replace_char (CHR 0x5C) CHR ''_''
                 (replace_char CHR ''/'' CHR ''_'' (replace_char CHR '' '' CHR ''_'' n))
               @ ''_'' @ original_filename)"

text \<open>
  \<open>DocumentProcessor.generate_document\<close>: the store after the call, and the exception
  raised or the document record returned.
\<close>

definition generate_document ::
  "externals \<Rightarrow> store \<Rightarrow> nat \<Rightarrow> (string \<rightharpoonup> string) \<Rightarrow> string \<Rightarrow> string option
     \<Rightarrow> store \<times> (error + created_document)" where
  "generate_document ext db template_id user_inputs user_name user_email =
     (case templates db template_id of
        None \<Rightarrow> (db, Inl NotFound)
      | Some tmpl \<Rightarrow>
          let errors = validate_inputs (x_re_match ext) (t_placeholders tmpl) user_inputs in
          if errors \<noteq> [] then (db, Inl (ValueError (join_lines errors)))
          else
            let context = prepare_context (x_dates ext) tmpl user_inputs True in
            (case x_render ext (t_file_path tmpl) context of
              Inl msg \<Rightarrow> (db, Inl (RenderError msg))
            | Inr rendered \<Rightarrow>
                let output_filename = x_uuid ext (uuids_drawn db) @ ''.docx'';
                    final = (case x_post_process ext tmpl rendered of
                               None \<Rightarrow> rendered | Some adjusted \<Rightarrow> adjusted);
                    created_doc =
                      \<lparr>cd_template_id = template_id, cd_user_name = user_name,
                       cd_user_email = user_email, cd_file_path = output_filename,
                       cd_original_filename = original_filename_of ext tmpl user_inputs,
                       cd_file_size = length final, cd_batch_id = None,
                       cd_user_inputs = user_inputs\<rparr>
                in (db\<lparr>uuids_drawn := uuids_drawn db + 1,
                       generated_files := write_file output_filename final (generated_files db),
                       documents := documents db @ [created_doc]\<rparr>,
                    Inr created_doc)))"

text \<open>
  The loop of \<open>process_batch\<close>: a generated document is tagged with the batch identifier
  and appended to the successes; an exception is caught and recorded as a message.
\<close>

fun batch_loop ::
  "externals \<Rightarrow> store \<Rightarrow> string \<Rightarrow> nat list \<Rightarrow> (string \<rightharpoonup> string) \<Rightarrow> string
     \<Rightarrow> string option \<Rightarrow> store \<times> created_document list \<times> string list" where
  "batch_loop ext db batch_id [] user_inputs user_name user_email = (db, [], [])"
| "batch_loop ext db batch_id (template_id # template_ids) user_inputs user_name user_email =
     (case generate_document ext db template_id user_inputs user_name user_email of
        (db1, Inr doc) \<Rightarrow>
          (let doc' = doc\<lparr>cd_batch_id := Some batch_id\<rparr>;
               db2 = db1\<lparr>documents := butlast (documents db1) @ [doc']\<rparr>
           in case batch_loop ext db2 batch_id template_ids user_inputs user_name user_email of
                (db3, successful, errors) \<Rightarrow> (db3, doc' # successful, errors))
      | (db1, Inl e) \<Rightarrow>
          (case batch_loop ext db1 batch_id template_ids user_inputs user_name user_email of
             (db3, successful, errors) \<Rightarrow>
               (db3, successful,
                (''Template '' @ str_nat template_id @ '': '' @ str_error e) # errors)))"

text \<open>\<open>process_batch\<close>\<close>

definition process_batch ::
  "externals \<Rightarrow> store \<Rightarrow> nat list \<Rightarrow> (string \<rightharpoonup> string) \<Rightarrow> string \<Rightarrow> string option
     \<Rightarrow> store \<times> batch_generation \<times> created_document list" where
  "process_batch ext db template_ids user_inputs user_name user_email =
     (let batch_id = x_uuid ext (uuids_drawn db);
          batch = \<lparr>bg_batch_id = batch_id, bg_user_name = user_name,
                   bg_user_email = user_email, bg_template_ids = template_ids,
                   bg_user_inputs = user_inputs, bg_status = ''processing'',
                   bg_completed_at = None, bg_total_documents = length template_ids,
                   bg_successful_documents = 0, bg_error_message = None\<rparr>;
          db0 = db\<lparr>uuids_drawn := uuids_drawn db + 1, batches := batches db @ [batch]\<rparr>
      in case batch_loop ext db0 batch_id template_ids user_inputs user_name user_email of
           (db1, successful, errors) \<Rightarrow>
             let batch' = batch\<lparr>bg_successful_documents := length successful,
                                bg_status := (if errors = [] then ''completed''
                                              else ''completed_with_errors''),
                                bg_error_message := (if errors = [] then None
                                                     else Some (join_lines errors)),
                                bg_completed_at := Some (x_utcnow ext)\<rparr>
             in (db1\<lparr>batches := butlast (batches db1) @ [batch']\<rparr>, batch', successful))"

text \<open>
  Whether one template fails to generate, and with which message: a function of the
  template table, the inputs and the template identifier alone. \<open>item_message\<close> is the
  entry recorded for a failing item.
\<close>

definition item_error ::
  "externals \<Rightarrow> (nat \<rightharpoonup> template) \<Rightarrow> (string \<rightharpoonup> string) \<Rightarrow> nat \<Rightarrow> string option" where
  "item_error ext tmpls user_inputs template_id =
     (case tmpls template_id of
        None \<Rightarrow> Some (str_error NotFound)
      | Some tmpl \<Rightarrow>
          let errors = validate_inputs (x_re_match ext) (t_placeholders tmpl) user_inputs in
          if errors \<noteq> [] then Some (join_lines errors)
          else (case x_render ext (t_file_path tmpl)
                       (prepare_context (x_dates ext) tmpl user_inputs True) of
                  Inl msg \<Rightarrow> Some msg
                | Inr rendered \<Rightarrow> None))"

definition item_message :: "externals \<Rightarrow> (nat \<rightharpoonup> template) \<Rightarrow> (string \<rightharpoonup> string) \<Rightarrow> nat \<Rightarrow> string option" where
  "item_message ext tmpls user_inputs template_id =
     map_option (\<lambda>msg. ''Template '' @ str_nat template_id @ '': '' @ msg)
       (item_error ext tmpls user_inputs template_id)"

lemma generate_document_failure:
  "generate_document ext db tid inputs un ue = (db', Inl e) \<Longrightarrow>
     db' = db \<and> item_error ext (templates db) inputs tid = Some (str_error e)"
  by (auto simp: generate_document_def item_error_def Let_def
           split: option.splits if_splits sum.splits)

lemma generate_document_success:
  "generate_document ext db tid inputs un ue = (db', Inr doc) \<Longrightarrow>
     templates db' = templates db \<and> documents db' = documents db @ [doc]
       \<and> batches db' = batches db
       \<and> item_error ext (templates db) inputs tid = None \<and> cd_template_id doc = tid"
  by (auto simp: generate_document_def item_error_def Let_def
           split: option.splits if_splits sum.splits)


lemma batch_loop_spec:
  "batch_loop ext db bid ids inputs un ue = (db', ok, errs) \<Longrightarrow>
     templates db' = templates db \<and> batches db' = batches db
       \<and> documents db' = documents db @ ok
       \<and> map cd_template_id ok
           = filter (\<lambda>tid. item_error ext (templates db) inputs tid = None) ids
       \<and> list_all (\<lambda>doc. cd_batch_id doc = Some bid) ok
       \<and> errs = List.map_filter (item_message ext (templates db) inputs) ids"
proof (induction ids arbitrary: db db' ok errs)
  case Nil
  then show ?case by (simp add: map_filter_simps)
next
  case (Cons tid ids)
  obtain db1 res where g: "generate_document ext db tid inputs un ue = (db1, res)"
    by (cases "generate_document ext db tid inputs un ue") auto
  show ?case
  proof (cases res)
    case (Inl e)
    from generate_document_failure [OF g [unfolded Inl]]
    have d: "db1 = db" and ie: "item_error ext (templates db) inputs tid = Some (str_error e)"
      by simp_all
    obtain db3 ok3 errs3 where r: "batch_loop ext db bid ids inputs un ue = (db3, ok3, errs3)"
      by (cases "batch_loop ext db bid ids inputs un ue") auto
    from Cons.prems g Inl d r have eq: "db' = db3" "ok = ok3"
      "errs = (''Template '' @ str_nat tid @ '': '' @ str_error e) # errs3"
      by simp_all
    from Cons.IH [OF r] ie show ?thesis
      unfolding eq by (simp add: map_filter_simps item_message_def)
  next
    case (Inr doc)
    from generate_document_success [OF g [unfolded Inr]]
    have t: "templates db1 = templates db" and dd: "documents db1 = documents db @ [doc]"
      and b: "batches db1 = batches db"
      and ie: "item_error ext (templates db) inputs tid = None"
      and ct: "cd_template_id doc = tid"
      by simp_all
    let ?doc' = "doc\<lparr>cd_batch_id := Some bid\<rparr>"
    let ?db2 = "db1\<lparr>documents := butlast (documents db1) @ [?doc']\<rparr>"
    obtain db3 ok3 errs3 where
      r: "batch_loop ext ?db2 bid ids inputs un ue = (db3, ok3, errs3)"
      by (cases "batch_loop ext ?db2 bid ids inputs un ue") auto
    from Cons.prems g Inr r have eq: "db' = db3" "ok = ?doc' # ok3" "errs = errs3"
      by (simp_all add: Let_def)
    have t2: "templates ?db2 = templates db" using t by simp
    have b2: "batches ?db2 = batches db" using b by simp
    have d2: "documents ?db2 = documents db @ [?doc']" using dd by simp
    from Cons.IH [OF r] ie ct show ?thesis
      unfolding eq t2 b2 d2 by (simp add: map_filter_simps item_message_def)
  qed
qed


lemma length_map_filter_item_message:
  "length (List.map_filter (item_message ext tmpls inputs) ids)
     = length (filter (\<lambda>tid. item_error ext tmpls inputs tid \<noteq> None) ids)"
  by (induction ids) (auto simp: map_filter_simps item_message_def split: option.splits)

lemma outcomes_partition:
  "length (filter (\<lambda>tid. item_error ext tmpls inputs tid = None) ids)
     + length (List.map_filter (item_message ext tmpls inputs) ids) = length ids"
  unfolding length_map_filter_item_message by (rule sum_length_filter_compl)

text \<open>
  C7: when the template exists and validation returns a non-empty list, the call raises
  \<open>ValueError\<close> carrying the messages joined by line breaks, and the store is the one
  before the call: no file written and no record added.
\<close>

theorem generate_document_validation_failure:
  "templates db tid = Some tmpl \<and>
   validate_inputs (x_re_match ext) (t_placeholders tmpl) inputs \<noteq> [] \<longrightarrow>
     generate_document ext db tid inputs un ue
       = (db, Inl (ValueError
                    (join_lines (validate_inputs (x_re_match ext) (t_placeholders tmpl) inputs))))"
  by (simp add: generate_document_def Let_def)

text \<open>
  Concrete externals and a store with one template, under identifier 1.
\<close>

definition ext0 :: externals where
  "ext0 = \<lparr>x_render = (\<lambda>path context. if path = ''broken.docx'' then Inl ''bad template''
                                         else Inr ''rendered''),
           x_post_process = (\<lambda>tmpl rendered. None),
           x_uuid = (\<lambda>n. ''uuid'' @ str_nat n),
           x_now = ''20261103_120000'',
           x_utcnow = ''2026-11-03T11:00:00Z'',
           x_re_match = exact_match,
           x_dates = env0\<rparr>"

definition db0 :: store where
  "db0 = \<lparr>templates = [1 \<mapsto> letter_template], documents = [], batches = [],
          generated_files = [], uuids_drawn = 0\<rparr>"

theorem generate_document_validation_failure_witness:
  "templates db0 1 = Some letter_template \<and>
   validate_inputs (x_re_match ext0) (t_placeholders letter_template) Map.empty \<noteq> [] \<and>
   generate_document ext0 db0 1 Map.empty ''guest'' None
     = (db0, Inl (ValueError ''Name is required''))"
proof -
  have t: "templates db0 1 = Some letter_template" by (simp add: db0_def)
  have v: "validate_inputs (x_re_match ext0) (t_placeholders letter_template) Map.empty
             = [''Name is required'']" by code_simp
  then have n: "validate_inputs (x_re_match ext0) (t_placeholders letter_template) Map.empty
             \<noteq> []" by simp
  have j: "join_lines [''Name is required''] = ''Name is required''" by simp
  from t n have "generate_document ext0 db0 1 Map.empty ''guest'' None
       = (db0, Inl (ValueError (join_lines
            (validate_inputs (x_re_match ext0) (t_placeholders letter_template) Map.empty))))"
    using generate_document_validation_failure
      [of db0 1 letter_template ext0 Map.empty "''guest''" None] by blast
  then have "generate_document ext0 db0 1 Map.empty ''guest'' None
     = (db0, Inl (ValueError ''Name is required''))"
    by (simp only: v j)
  with t n show ?thesis by blast
qed

text \<open>
  C1: a batch run attempts every template in input order. The successes are, in order,
  the templates that generate without error; each failing template leaves one entry
  carrying its identifier and message, in order, and the later templates are still
  processed. Successes and entries add up to the number of templates. The batch record
  counts the successes, has status \<open>completed\<close> when there is no entry and
  \<open>completed_with_errors\<close> otherwise, and carries a completion time; the generated
  documents are in the store, tagged with the batch. For a valid, an invalid and a valid
  template there are 2 successes, 1 entry and the status \<open>completed_with_errors\<close>.
\<close>

theorem process_batch_spec:
  "process_batch ext db ids inputs un ue = (db', batch, ok) \<longrightarrow>
     map cd_template_id ok
       = filter (\<lambda>tid. item_error ext (templates db) inputs tid = None) ids \<and>
     length ok + length (List.map_filter (item_message ext (templates db) inputs) ids)
       = length ids \<and>
     bg_total_documents batch = length ids \<and>
     bg_successful_documents batch = length ok \<and>
     bg_status batch =
       (if List.map_filter (item_message ext (templates db) inputs) ids = [] then ''completed''
        else ''completed_with_errors'') \<and>
     bg_error_message batch =
       (if List.map_filter (item_message ext (templates db) inputs) ids = [] then None
        else Some (join_lines (List.map_filter (item_message ext (templates db) inputs) ids))) \<and>
     bg_completed_at batch = Some (x_utcnow ext) \<and>
     documents db' = documents db @ ok \<and>
     list_all (\<lambda>doc. cd_batch_id doc = Some (bg_batch_id batch)) ok \<and>
     batches db' = batches db @ [batch] \<and>
     (ids = [a, b, c] \<and> item_error ext (templates db) inputs a = None \<and>
      item_error ext (templates db) inputs b = Some msg \<and>
      item_error ext (templates db) inputs c = None \<longrightarrow>
        bg_successful_documents batch = 2 \<and>
        List.map_filter (item_message ext (templates db) inputs) ids
          = [''Template '' @ str_nat b @ '': '' @ msg] \<and>
        bg_status batch = ''completed_with_errors'')"
proof
  assume p: "process_batch ext db ids inputs un ue = (db', batch, ok)"
  let ?bid = "x_uuid ext (uuids_drawn db)"
  let ?batch = "\<lparr>bg_batch_id = ?bid, bg_user_name = un,
                   bg_user_email = ue, bg_template_ids = ids,
                   bg_user_inputs = inputs, bg_status = ''processing'',
                   bg_completed_at = None, bg_total_documents = length ids,
                   bg_successful_documents = 0, bg_error_message = None\<rparr>"
  let ?db0 = "db\<lparr>uuids_drawn := uuids_drawn db + 1, batches := batches db @ [?batch]\<rparr>"
  let ?errs = "List.map_filter (item_message ext (templates db) inputs) ids"
  obtain db1 ok1 errs1 where
    l: "batch_loop ext ?db0 ?bid ids inputs un ue = (db1, ok1, errs1)"
    by (cases "batch_loop ext ?db0 ?bid ids inputs un ue") auto
  from batch_loop_spec [OF l]
  have b1: "batches db1 = batches db @ [?batch]"
    and d1: "documents db1 = documents db @ ok1"
    and m1: "map cd_template_id ok1
               = filter (\<lambda>tid. item_error ext (templates db) inputs tid = None) ids"
    and a1: "list_all (\<lambda>doc. cd_batch_id doc = Some ?bid) ok1"
    and e1: "errs1 = ?errs"
    by simp_all
  let ?batch' = "?batch\<lparr>bg_successful_documents := length ok1,
                         bg_status := (if errs1 = [] then ''completed''
                                       else ''completed_with_errors''),
                         bg_error_message := (if errs1 = [] then None
                                              else Some (join_lines errs1)),
                         bg_completed_at := Some (x_utcnow ext)\<rparr>"
  from p l have r: "db' = db1\<lparr>batches := butlast (batches db1) @ [?batch']\<rparr>"
    "batch = ?batch'" "ok = ok1"
    by (auto simp add: process_batch_def Let_def)
  have len: "length ok1 + length ?errs = length ids"
  proof -
    have "length ok1 = length (map cd_template_id ok1)" by simp
    also have "\<dots> = length (filter (\<lambda>tid. item_error ext (templates db) inputs tid = None) ids)"
      by (simp only: m1)
    finally show ?thesis using outcomes_partition [of ext "templates db" inputs ids] by simp
  qed
  have special: "bg_successful_documents batch = 2 \<and>
        ?errs = [''Template '' @ str_nat b @ '': '' @ msg] \<and>
        bg_status batch = ''completed_with_errors''"
    if h: "ids = [a, b, c] \<and> item_error ext (templates db) inputs a = None \<and>
      item_error ext (templates db) inputs b = Some msg \<and>
      item_error ext (templates db) inputs c = None"
  proof -
    from h have e: "?errs = [''Template '' @ str_nat b @ '': '' @ msg]"
      by (simp add: map_filter_simps item_message_def)
    from h have "filter (\<lambda>tid. item_error ext (templates db) inputs tid = None) ids = [a, c]"
      by simp
    with m1 have "length ok1 = 2"
      by (metis length_map length_Cons list.size(3) numeral_2_eq_2)
    with e show ?thesis unfolding r(2) e1 by simp
  qed
  show "map cd_template_id ok
       = filter (\<lambda>tid. item_error ext (templates db) inputs tid = None) ids \<and>
     length ok + length ?errs = length ids \<and>
     bg_total_documents batch = length ids \<and>
     bg_successful_documents batch = length ok \<and>
     bg_status batch = (if ?errs = [] then ''completed'' else ''completed_with_errors'') \<and>
     bg_error_message batch = (if ?errs = [] then None else Some (join_lines ?errs)) \<and>
     bg_completed_at batch = Some (x_utcnow ext) \<and>
     documents db' = documents db @ ok \<and>
     list_all (\<lambda>doc. cd_batch_id doc = Some (bg_batch_id batch)) ok \<and>
     batches db' = batches db @ [batch] \<and>
     (ids = [a, b, c] \<and> item_error ext (templates db) inputs a = None \<and>
      item_error ext (templates db) inputs b = Some msg \<and>
      item_error ext (templates db) inputs c = None \<longrightarrow>
        bg_successful_documents batch = 2 \<and>
        ?errs = [''Template '' @ str_nat b @ '': '' @ msg] \<and>
        bg_status batch = ''completed_with_errors'')"
  proof (intro conjI impI)
    show "map cd_template_id ok
       = filter (\<lambda>tid. item_error ext (templates db) inputs tid = None) ids"
      unfolding r(3) by (rule m1)
    show "length ok + length ?errs = length ids" unfolding r(3) by (rule len)
    show "bg_total_documents batch = length ids" unfolding r(2) by simp
    show "bg_successful_documents batch = length ok" unfolding r(2,3) by simp
    show "bg_status batch = (if ?errs = [] then ''completed'' else ''completed_with_errors'')"
      unfolding r(2) e1 by simp
    show "bg_error_message batch = (if ?errs = [] then None else Some (join_lines ?errs))"
      unfolding r(2) e1 by simp
    show "bg_completed_at batch = Some (x_utcnow ext)" unfolding r(2) by simp
    show "documents db' = documents db @ ok" unfolding r(1,3) using d1 by simp
    show "list_all (\<lambda>doc. cd_batch_id doc = Some (bg_batch_id batch)) ok"
      unfolding r(2,3) using a1 by simp
    show "batches db' = batches db @ [batch]" unfolding r(1,2) using b1 by simp
  next
    assume h: "ids = [a, b, c] \<and> item_error ext (templates db) inputs a = None \<and>
      item_error ext (templates db) inputs b = Some msg \<and>
      item_error ext (templates db) inputs c = None"
    from special [OF h] show "bg_successful_documents batch = 2"
      and "?errs = [''Template '' @ str_nat b @ '': '' @ msg]"
      and "bg_status batch = ''completed_with_errors''"
      by blast+
  qed
qed


text \<open>A batch over an existing, a missing and again the existing template.\<close>

definition batch0 :: "store \<times> batch_generation \<times> created_document list" where
  "batch0 = process_batch ext0 db0 [1, 2, 1] [''name'' \<mapsto> ''Alice''] ''Alice'' None"

theorem process_batch_spec_witness:
  "process_batch ext0 db0 [1, 2, 1] [''name'' \<mapsto> ''Alice''] ''Alice'' None
     = (fst batch0, fst (snd batch0), snd (snd batch0)) \<and>
   item_error ext0 (templates db0) [''name'' \<mapsto> ''Alice''] 1 = None \<and>
   item_error ext0 (templates db0) [''name'' \<mapsto> ''Alice''] 2 = Some (str_error NotFound) \<and>
   bg_successful_documents (fst (snd batch0)) = 2 \<and>
   length (snd (snd batch0)) = 2 \<and>
   bg_status (fst (snd batch0)) = ''completed_with_errors'' \<and>
   bg_completed_at (fst (snd batch0)) = Some (x_utcnow ext0) \<and>
   documents (fst batch0) = snd (snd batch0)"
proof -
  have p: "process_batch ext0 db0 [1, 2, 1] [''name'' \<mapsto> ''Alice''] ''Alice'' None
     = (fst batch0, fst (snd batch0), snd (snd batch0))"
    by (simp add: batch0_def)
  have v: "item_error ext0 (templates db0) [''name'' \<mapsto> ''Alice''] 1 = None" by code_simp
  have i: "item_error ext0 (templates db0) [''name'' \<mapsto> ''Alice''] 2
             = Some (str_error NotFound)" by code_simp
  have d: "documents db0 = []" by (simp add: db0_def)
  note t = process_batch_spec [of ext0 db0 "[1, 2, 1]" "[''name'' \<mapsto> ''Alice'']" "''Alice''"
      None "fst batch0" "fst (snd batch0)" "snd (snd batch0)" 1 2 1 "str_error NotFound"]
  from t p v i have 1: "bg_successful_documents (fst (snd batch0)) = 2"
    and 2: "bg_status (fst (snd batch0)) = ''completed_with_errors''" by blast+
  from t p have 3: "bg_successful_documents (fst (snd batch0)) = length (snd (snd batch0))"
    and 4: "bg_completed_at (fst (snd batch0)) = Some (x_utcnow ext0)"
    and 5: "documents (fst batch0) = documents db0 @ snd (snd batch0)" by blast+
  from 1 3 have 6: "length (snd (snd batch0)) = 2" by simp
  from 5 d have 7: "documents (fst batch0) = snd (snd batch0)" by simp
  from p v i 1 2 4 6 7 show ?thesis by blast
qed


end
